theory Spec2Isabelle
  imports Main "HOL-Library.Word" "HOL-Library.Sublist"
begin

section \<open>The iRTSP message codec\<close>

subsection \<open>Library functions used by the codec\<close>

text \<open>
  Go strings are byte sequences; they are modelled as \<open>string\<close> (lists of 8-bit
  characters). The Go type \<open>int\<close> is taken at its 64-bit width.
\<close>

abbreviation CR :: char where "CR \<equiv> CHR 0x0D"
abbreviation LF :: char where "LF \<equiv> CHR 0x0A"
abbreviation CRLF :: string where "CRLF \<equiv> [CR, LF]"

text \<open>
  \<open>strings.ReplaceAll(s, "\r\n", "\n")\<close>: the non-overlapping occurrences of CR LF,
  scanned from the left, are replaced by LF.
\<close>

fun ReplaceAll :: "string \<Rightarrow> string" where
  "ReplaceAll (c # d # s) =
     (if c = CR \<and> d = LF then LF # ReplaceAll s else c # ReplaceAll (d # s))"
| "ReplaceAll s = s"

text \<open>
  \<open>strings.Split(s, sep)\<close> for a one-byte separator: the pieces between the
  occurrences of \<open>sep\<close>; there is always at least one piece.
\<close>

fun Split :: "string \<Rightarrow> char \<Rightarrow> string list" where
  "Split [] sep = [[]]"
| "Split (c # s) sep =
     (if c = sep then [] # Split s sep
      else (case Split s sep of [] \<Rightarrow> [[c]] | l # ls \<Rightarrow> (c # l) # ls))"

text \<open>
  \<open>strings.Cut(s, sep)\<close> for a one-byte separator: the text before and after the
  first occurrence of \<open>sep\<close>, and whether it occurs; \<open>(s, "", false)\<close> when it does not.
\<close>

definition Cut :: "string \<Rightarrow> char \<Rightarrow> string \<times> string \<times> bool" where
  "Cut s sep =
     (if sep \<in> set s
      then (takeWhile (\<lambda>c. c \<noteq> sep) s, tl (dropWhile (\<lambda>c. c \<noteq> sep) s), True)
      else (s, [], False))"

text \<open>
  \<open>strings.TrimRight(s, ";")\<close>: every trailing byte that belongs to the cutset
  \<open>";"\<close> is removed.
\<close>

definition TrimRight :: "string \<Rightarrow> char \<Rightarrow> string" where
  "TrimRight s c = rev (dropWhile (\<lambda>x. x = c) (rev s))"

text \<open>Decimal digits.\<close>

definition digitChar :: "nat \<Rightarrow> char" where
  "digitChar d = ''0123456789'' ! d"

definition isDigit :: "char \<Rightarrow> bool" where
  "isDigit c = (48 \<le> (of_char c :: nat) \<and> (of_char c :: nat) \<le> 57)"

definition digitVal :: "char \<Rightarrow> nat" where
  "digitVal c = of_char c - 48"

fun showNat :: "nat \<Rightarrow> string" where
  "showNat n = (if n < 10 then [digitChar n] else showNat (n div 10) @ [digitChar (n mod 10)])"

declare showNat.simps [simp del]

definition readNat :: "string \<Rightarrow> nat" where
  "readNat ds = foldl (\<lambda>n c. n * 10 + digitVal c) 0 ds"

text \<open>
  \<open>fmt.Sprintf("%d", n)\<close> for an \<open>int\<close>: the decimal digits of the signed value,
  with a leading minus sign for a negative one.
\<close>

definition Sprintf_d :: "64 word \<Rightarrow> string" where
  "Sprintf_d n =
     (if sint n < 0 then CHR ''-'' # showNat (nat (- sint n)) else showNat (nat (sint n)))"

text \<open>
  \<open>strconv.Atoi(s)\<close>: an optional sign followed by at least one decimal digit and
  nothing else, denoting a value of the range of \<open>int\<close>; every other string is an
  error (\<open>None\<close>).
\<close>

definition Atoi :: "string \<Rightarrow> 64 word option" where
  "Atoi s =
     (case s of
        [] \<Rightarrow> None
      | c # r \<Rightarrow>
          let neg = (c = CHR ''-'');
              ds = (if c = CHR ''-'' \<or> c = CHR ''+'' then r else s)
          in if ds = [] \<or> \<not> list_all isDigit ds then None
             else let v = (if neg then - int (readNat ds) else int (readNat ds))
                  in if - (2 ^ 63) \<le> v \<and> v < 2 ^ 63 then Some (word_of_int v) else None)"

subsection \<open>Messages\<close>

record Message =
  Version :: string
  Sequence :: "64 word"
  Method :: string
  Code :: "64 word"
  Headers :: "string \<rightharpoonup> string"

datatype error = IndexOutOfRange | NilDereference

text \<open>
  \<open>Message.ToBytes\<close>. Go iterates over a map in an order chosen by the runtime; the
  order in which the keys are visited is the parameter \<open>order\<close>.
\<close>

definition headerLine :: "Message \<Rightarrow> string \<Rightarrow> string" where
  "headerLine m header =
     (case Headers m header of
        None \<Rightarrow> []
      | Some v \<Rightarrow> if v = [] then header @ CRLF else header @ ''='' @ v @ CRLF)"

definition ToBytes :: "string list \<Rightarrow> Message \<Rightarrow> string" where
  "ToBytes order m =
     Version m @ CRLF
     @ ''Seq='' @ Sprintf_d (Sequence m) @ CRLF
     @ (if 0 <s Code m
        then ''RSP/'' @ Method m @ ''/'' @ Sprintf_d (Code m) @ CRLF
        else ''SET/'' @ Method m @ CRLF)
     @ concat (map (headerLine m) order)
     @ ''Submit'' @ CRLF"

text \<open>
  \<open>NewMessage\<close>. A read of \<open>messageLines[0]\<close> or of
  \<open>messageLines[len(messageLines)-1]\<close> on an empty slice is a run-time panic, the
  value \<open>Inl IndexOutOfRange\<close>. The function is given in the phases its comments name;
  each \<open>messageLines[1:]\<close> of the source follows a read of \<open>messageLines[0]\<close> and is
  the tail of the pattern.
\<close>

definition setHeader :: "Message \<Rightarrow> string \<Rightarrow> Message" where
  "setHeader msg msgHeaderField =
     (case Cut msgHeaderField (CHR ''='') of
        (msgHeader, msgValue, _) \<Rightarrow> msg\<lparr>Headers := (Headers msg)(msgHeader \<mapsto> msgValue)\<rparr>)"

definition parseHeaders :: "Message \<Rightarrow> string list \<Rightarrow> Message" where
  "parseHeaders msg messageLines = foldl setHeader msg messageLines"

definition parseMethod :: "Message \<Rightarrow> string list \<Rightarrow> error + Message option" where
  "parseMethod msg messageLines =
     (case messageLines of
        [] \<Rightarrow> Inl IndexOutOfRange
      | l # rest \<Rightarrow>
          (case Cut l (CHR ''/'') of
             (msgSource, msgMethod, found) \<Rightarrow>
               if found \<and> msgSource = ''SET''
               then Inr (Some (parseHeaders (msg\<lparr>Method := msgMethod\<rparr>) rest))
               else if found \<and> msgSource = ''RSP''
               then (case Cut msgMethod (CHR ''/'') of
                       (method, codeString, found') \<Rightarrow>
                         if found'
                         then (case Atoi codeString of
                                 None \<Rightarrow> Inr (Some (msg\<lparr>Method := method\<rparr>))
                               | Some code \<Rightarrow>
                                   Inr (Some (parseHeaders (msg\<lparr>Method := method, Code := code\<rparr>) rest)))
                         else Inr (Some (parseHeaders msg rest)))
               else Inr (Some (parseHeaders msg messageLines))))"

definition parseSequence :: "Message \<Rightarrow> string list \<Rightarrow> error + Message option" where
  "parseSequence msg messageLines =
     (case messageLines of
        [] \<Rightarrow> Inl IndexOutOfRange
      | l # rest \<Rightarrow>
          (case Cut l (CHR ''='') of
             (seqField, seqValue, found) \<Rightarrow>
               if found \<and> seqField = ''Seq''
               then (case Atoi seqValue of
                       None \<Rightarrow> Inr (Some msg)
                     | Some seq \<Rightarrow> parseMethod (msg\<lparr>Sequence := seq\<rparr>) rest)
               else parseMethod msg messageLines))"

definition emptyMessage :: Message where
  "emptyMessage = \<lparr>Version = [], Sequence = 0, Method = [], Code = 0, Headers = Map.empty\<rparr>"

definition parseLines :: "string list \<Rightarrow> error + Message option" where
  "parseLines messageLines =
     (if messageLines = [] then Inl IndexOutOfRange
      else
        (case (if last messageLines = ''Submit'' then butlast messageLines else messageLines) of
           [] \<Rightarrow> Inl IndexOutOfRange
         | l # rest \<Rightarrow> parseSequence (emptyMessage\<lparr>Version := l\<rparr>) rest))"

definition NewMessage :: "string \<Rightarrow> error + Message option" where
  "NewMessage message =
     (let messageLines = Split (ReplaceAll message) LF
      in if length messageLines \<le> 0 then Inr None
         else parseLines (butlast messageLines))"


section \<open>Side channels\<close>

subsection \<open>The spawner\<close>

text \<open>
  \<open>startMediaConnection\<close>. What it asks of the operating system is the value
  returned: the socket to open, and the arguments it later hands to
  \<open>handleMediaConnection\<close> (network, port, kind). Reading
  \<open>headerStrings[len(headerStrings)-2]\<close> of a one-element slice is a run-time panic.
  A port that \<open>strconv.Atoi\<close> rejects is logged and nothing is opened (\<open>None\<close>).
\<close>

datatype listener = ListenUDP "64 word" | Listen string string

record sideChannel =
  chListener :: listener
  chNetwork :: string
  chPort :: string
  chKind :: string

definition startMediaConnection :: "string \<Rightarrow> string \<Rightarrow> error + sideChannel option" where
  "startMediaConnection header kind =
     (let headerStrings = Split header (CHR ''/'')
      in if length headerStrings < 1 then Inl IndexOutOfRange
         else
           let port = headerStrings ! (length headerStrings - 1)
           in if length headerStrings < 2 then Inl IndexOutOfRange
              else
                let network = headerStrings ! (length headerStrings - 2)
                in if network = ''ust''
                   then (case Atoi port of
                           None \<Rightarrow> Inr None
                         | Some portInt \<Rightarrow>
                             Inr (Some \<lparr>chListener = ListenUDP portInt, chNetwork = ''udp'',
                                        chPort = port, chKind = kind\<rparr>))
                   else Inr (Some \<lparr>chListener = Listen network ('':'' @ port),
                                    chNetwork = network, chPort = port, chKind = kind\<rparr>))"

text \<open>
  A sequence of calls of the spawner, in program order. A panic ends the process, so the
  calls after it are not made. The result is the list of the calls made (the panicking
  one included) and either the panic or the channels asked for.
\<close>

fun runSpawner :: "(string \<times> string) list
    \<Rightarrow> (string \<times> string) list \<times> (error + sideChannel option list)" where
  "runSpawner [] = ([], Inr [])"
| "runSpawner ((header, kind) # calls) =
     (case startMediaConnection header kind of
        Inl e \<Rightarrow> ([(header, kind)], Inl e)
      | Inr ch \<Rightarrow>
          (case runSpawner calls of
             (made, Inl e) \<Rightarrow> ((header, kind) # made, Inl e)
           | (made, Inr chs) \<Rightarrow> ((header, kind) # made, Inr (ch # chs))))"

subsection \<open>The relay\<close>

text \<open>
  \<open>handleMediaConnection\<close> runs two goroutines, one per direction, and waits for both.
  One iteration of a goroutine's loop is one step of the model; the environment gives the
  outcome of its read (the bytes, the error, and for a datagram the address it came from,
  which \<open>Read\<close> does not return) and of its write. The steps of the two goroutines
  interleave in any order. \<open>wg\<close> is the counter of the \<open>sync.WaitGroup\<close>: set to
  two by \<open>wg.Add(2)\<close>, and lowered by the \<open>wg.Done()\<close> that follows each loop.
  \<open>WaitReturns\<close> is the return of \<open>wg.Wait()\<close>, possible when the counter is zero,
  followed by the deferred \<open>serverConn.Close()\<close>.
\<close>

datatype ioError = ErrDeadlineExceeded | ErrOther

definition terminal :: "ioError option \<Rightarrow> bool" where
  \<comment> \<open>\<open>err != nil && !errors.Is(err, os.ErrDeadlineExceeded)\<close>\<close>
  "terminal err = (err \<noteq> None \<and> err \<noteq> Some ErrDeadlineExceeded)"

datatype endpoint = Conn | ServerConn

datatype action = Write endpoint string | WriteTo endpoint string "string option"

record relay =
  relayNetwork :: string
  connRemoteAddr :: "string option"
  serverRemoteAddr :: "string option"
  clientLoop :: bool
  serverLoop :: bool
  wg :: nat
  returned :: bool
  connOpen :: bool
  serverConnOpen :: bool
  sent :: "action list"

datatype event =
    ClientRead "string option" string "ioError option" "ioError option"
  | ServerRead string "ioError option" "ioError option"
  | WaitReturns

text \<open>
  The start of \<open>handleMediaConnection\<close>: the destination is dialled at the configured
  host on the given port; when the dial fails the function returns (\<open>None\<close>). The
  argument \<open>conn\<close> is represented by its \<open>RemoteAddr()\<close>.
\<close>

definition dialAddress :: "string \<Rightarrow> string \<Rightarrow> string" where
  "dialAddress serverAddress port = serverAddress @ '':'' @ port"

definition handleMediaConnection ::
    "string \<Rightarrow> bool \<Rightarrow> string option \<Rightarrow> string \<Rightarrow> string \<Rightarrow> string \<Rightarrow> relay option" where
  "handleMediaConnection serverAddress dialOk conn network port kind =
     (if \<not> dialOk then None
      else Some \<lparr>relayNetwork = network, connRemoteAddr = conn,
                  serverRemoteAddr = Some (dialAddress serverAddress port),
                  clientLoop = True, serverLoop = True, wg = 2, returned = False,
                  connOpen = True, serverConnOpen = True, sent = []\<rparr>)"

fun relayStep :: "relay \<Rightarrow> event \<Rightarrow> relay" where
  "relayStep st (ClientRead sender buffer rerr werr) =
     (if \<not> clientLoop st then st
      else if terminal rerr then st\<lparr>clientLoop := False, wg := wg st - 1\<rparr>
      else if buffer \<noteq> []
      then (let a = (if relayNetwork st = ''udp''
                     then WriteTo Conn buffer (serverRemoteAddr st)
                     else Write ServerConn buffer);
                st' = st\<lparr>sent := sent st @ [a]\<rparr>
            in if werr \<noteq> None then st'\<lparr>clientLoop := False, wg := wg st - 1\<rparr> else st')
      else st)"
| "relayStep st (ServerRead buffer rerr werr) =
     (if \<not> serverLoop st then st
      else if terminal rerr then st\<lparr>serverLoop := False, wg := wg st - 1\<rparr>
      else if buffer \<noteq> []
      then (let a = (if relayNetwork st = ''udp''
                     then WriteTo ServerConn buffer (connRemoteAddr st)
                     else Write Conn buffer);
                st' = st\<lparr>sent := sent st @ [a]\<rparr>
            in if werr \<noteq> None then st'\<lparr>serverLoop := False, wg := wg st - 1\<rparr> else st')
      else st)"
| "relayStep st WaitReturns =
     (if wg st = 0 \<and> \<not> returned st
      then st\<lparr>returned := True, serverConnOpen := False\<rparr>
      else st)"

definition relayRun :: "relay \<Rightarrow> event list \<Rightarrow> relay" where
  "relayRun st events = foldl relayStep st events"

text \<open>
  The relay a datagram side channel gets: \<open>startMediaConnection\<close> passes the socket
  bound by \<open>net.ListenUDP\<close>, which has no remote address.
\<close>

definition startRelay :: "string \<Rightarrow> bool \<Rightarrow> string option \<Rightarrow> sideChannel \<Rightarrow> relay option" where
  "startRelay serverAddress dialOk peer ch =
     (case chListener ch of
        ListenUDP portInt \<Rightarrow>
          handleMediaConnection serverAddress dialOk None (chNetwork ch) (chPort ch) (chKind ch)
      | Listen n a \<Rightarrow>
          handleMediaConnection serverAddress dialOk peer (chNetwork ch) (chPort ch) (chKind ch))"

section \<open>The primary session\<close>

text \<open>
  The two legs of a session. \<open>tls.Server\<close> and \<open>tls.Client\<close> wrap the connection they
  are given; the role of a leg is its outermost wrapper.
\<close>

datatype netConn = TCPConn | tls_Server netConn | tls_Client netConn

datatype role = Plain | SecureClient | SecureServer

fun roleOf :: "netConn \<Rightarrow> role" where
  "roleOf TCPConn = Plain"
| "roleOf (tls_Server c) = SecureServer"
| "roleOf (tls_Client c) = SecureClient"

record session =
  conn :: netConn
  serverConn :: netConn

definition headerValue :: "Message \<Rightarrow> string \<Rightarrow> string" where
  \<comment> \<open>\<open>res.Headers[k]\<close>: the empty string when the key is absent\<close>
  "headerValue res k = (case Headers res k of None \<Rightarrow> [] | Some v \<Rightarrow> v)"

text \<open>
  The calls of the spawner that a message from the destination leads to, in program
  order (lines 134 to 156 of \<open>handleIRTSPConnection\<close>).
\<close>

definition spawnerCalls :: "Message \<Rightarrow> (string \<times> string) list" where
  "spawnerCalls res =
     (if Method res = ''SETUP''
      then (let videoHeader = headerValue res ''v'';
                audioHeader = headerValue res ''a'';
                controlHeader = headerValue res ''c''
            in [(videoHeader, ''VIDEO'')]
               @ (if audioHeader \<noteq> videoHeader then [(audioHeader, ''AUDIO'')] else [])
               @ (if controlHeader \<noteq> videoHeader \<and> controlHeader \<noteq> audioHeader
                  then [(controlHeader, ''CONTROL'')] else []))
      else [])
     @ (if Method res = ''KNOCK''
        then [(TrimRight (headerValue res ''p'') (CHR '';''), ''KNOCK'')]
        else [])"

definition rewriteScheme :: "bool \<Rightarrow> Message \<Rightarrow> Message" where
  \<comment> \<open>lines 158 to 165\<close>
  "rewriteScheme disableTLS res =
     (if Method res = ''START'' \<and> disableTLS
      then (case Headers res ''sc'' of
              Some scheme \<Rightarrow>
                if scheme = ''tls'' then res\<lparr>Headers := (Headers res)(''sc'' \<mapsto> [])\<rparr> else res
            | None \<Rightarrow> res)
      else res)"

definition upgrade :: "bool \<Rightarrow> Message \<Rightarrow> session \<Rightarrow> session" where
  \<comment> \<open>lines 186 to 191\<close>
  "upgrade disableTLS res st =
     (if Method res = ''START''
      then (let st' = (if \<not> disableTLS then st\<lparr>conn := tls_Server (conn st)\<rparr> else st)
            in st'\<lparr>serverConn := tls_Client (serverConn st')\<rparr>)
      else st)"

text \<open>
  The result of handling the bytes read from one leg: the calls of the spawner that were
  made, the bytes handed to \<open>Write\<close> on the other leg (if that point was reached), and
  how the loop goes on.
\<close>

datatype outcome = Continue session | Break | Panic error

record handled =
  calls :: "(string \<times> string) list"
  written :: "string option"
  forwarded :: "Message option"
  outcome :: outcome

text \<open>
  Lines 128 to 192: a non-empty read from the destination. \<open>order\<close> is the order of
  the map iteration in \<open>res.ToBytes()\<close>, \<open>werr\<close> the error of \<open>conn.Write\<close>.
\<close>

definition handleServerMessage ::
    "bool \<Rightarrow> session \<Rightarrow> Message \<Rightarrow> string list \<Rightarrow> ioError option \<Rightarrow> handled" where
  "handleServerMessage disableTLS st res order werr =
     (case runSpawner (spawnerCalls res) of
        (made, Inl e) \<Rightarrow>
          \<lparr>calls = made, written = None, forwarded = None, outcome = Panic e\<rparr>
      | (made, Inr chs) \<Rightarrow>
          let res' = rewriteScheme disableTLS res
          in \<lparr>calls = made, written = Some (ToBytes order res'), forwarded = Some res',
              outcome = (if werr \<noteq> None then Break else Continue (upgrade disableTLS res' st))\<rparr>)"

definition handleServerData ::
    "bool \<Rightarrow> session \<Rightarrow> string \<Rightarrow> string list \<Rightarrow> ioError option \<Rightarrow> handled" where
  "handleServerData disableTLS st buffer order werr =
     (case NewMessage buffer of
        Inl e \<Rightarrow> \<lparr>calls = [], written = None, forwarded = None, outcome = Panic e\<rparr>
      | Inr None \<Rightarrow> \<lparr>calls = [], written = None, forwarded = None, outcome = Panic NilDereference\<rparr>
      | Inr (Some res) \<Rightarrow> handleServerMessage disableTLS st res order werr)"

text \<open>Lines 97 to 117: a non-empty read from the client.\<close>

definition handleClientData ::
    "session \<Rightarrow> string \<Rightarrow> string list \<Rightarrow> ioError option \<Rightarrow> handled" where
  "handleClientData st buffer order werr =
     (case NewMessage buffer of
        Inl e \<Rightarrow> \<lparr>calls = [], written = None, forwarded = None, outcome = Panic e\<rparr>
      | Inr None \<Rightarrow> \<lparr>calls = [], written = None, forwarded = None, outcome = Panic NilDereference\<rparr>
      | Inr (Some req) \<Rightarrow>
          \<lparr>calls = [], written = Some (ToBytes order req), forwarded = Some req,
           outcome = (if werr \<noteq> None then Break else Continue st)\<rparr>)"

text \<open>
  One iteration of the loop of \<open>handleIRTSPConnection\<close>: what the environment gives
  it, and the session the next iteration starts from.
\<close>

record roundEnv =
  clientRead :: "string \<times> ioError option"
  reqOrder :: "string list"
  serverWrite :: "ioError option"
  serverRead :: "string \<times> ioError option"
  resOrder :: "string list"
  clientWrite :: "ioError option"

definition serverHalf :: "bool \<Rightarrow> session \<Rightarrow> roundEnv \<Rightarrow> outcome" where
  "serverHalf disableTLS st env =
     (case serverRead env of
        (buffer, err) \<Rightarrow>
          if terminal err then Break
          else if buffer \<noteq> []
          then outcome (handleServerData disableTLS st buffer (resOrder env) (clientWrite env))
          else Continue st)"

definition round :: "bool \<Rightarrow> session \<Rightarrow> roundEnv \<Rightarrow> outcome" where
  "round disableTLS st env =
     (case clientRead env of
        (buffer, err) \<Rightarrow>
          if terminal err then Break
          else if buffer \<noteq> []
          then (case outcome (handleClientData st buffer (reqOrder env) (serverWrite env)) of
                  Continue st' \<Rightarrow> serverHalf disableTLS st' env
                | out \<Rightarrow> out)
          else serverHalf disableTLS st env)"

fun rounds :: "bool \<Rightarrow> session \<Rightarrow> roundEnv list \<Rightarrow> outcome" where
  "rounds disableTLS st [] = Continue st"
| "rounds disableTLS st (env # envs) =
     (case round disableTLS st env of
        Continue st' \<Rightarrow> rounds disableTLS st' envs
      | out \<Rightarrow> out)"


section \<open>Auxiliary definitions for the statements\<close>

text \<open>
  The trimming the specification describes for the \<open>KNOCK\<close> descriptor: exactly one
  trailing \<open>;\<close> is removed if there is one. It is compared with what the code calls,
  \<open>strings.TrimRight\<close>.
\<close>

definition spec_trimOne :: "string \<Rightarrow> string" where
  "spec_trimOne p = (if p \<noteq> [] \<and> last p = CHR '';'' then butlast p else p)"

text \<open>The calls of the spawner for a \<open>SETUP\<close> message, given its three header values.\<close>

definition setupCalls :: "string \<Rightarrow> string \<Rightarrow> string \<Rightarrow> (string \<times> string) list" where
  "setupCalls v a c =
     [(v, ''VIDEO'')] @ (if a \<noteq> v then [(a, ''AUDIO'')] else [])
     @ (if c \<noteq> v \<and> c \<noteq> a then [(c, ''CONTROL'')] else [])"

text \<open>
  The lines that \<open>ToBytes\<close> writes, without their line ends, and the messages the
  round trip is stated for: \<open>order\<close> lists the keys of the header map, the code is not
  negative, no field contains a line feed, the method contains no \<open>/\<close> and no header
  key contains \<open>=\<close>.
\<close>

definition headerText :: "Message \<Rightarrow> string \<Rightarrow> string" where
  "headerText m k =
     (case Headers m k of None \<Rightarrow> [] | Some v \<Rightarrow> if v = [] then k else k @ ''='' @ v)"

definition methodText :: "Message \<Rightarrow> string" where
  "methodText m =
     (if 0 <s Code m then ''RSP/'' @ Method m @ ''/'' @ Sprintf_d (Code m)
      else ''SET/'' @ Method m)"

definition encodedLines :: "string list \<Rightarrow> Message \<Rightarrow> string list" where
  "encodedLines order m =
     Version m # (''Seq='' @ Sprintf_d (Sequence m)) # methodText m
     # map (headerText m) order @ [''Submit'']"

definition wellFormed :: "string list \<Rightarrow> Message \<Rightarrow> bool" where
  "wellFormed order m =
     (set order = dom (Headers m) \<and> 0 \<le>s Code m
      \<and> LF \<notin> set (Version m) \<and> LF \<notin> set (Method m) \<and> CHR ''/'' \<notin> set (Method m)
      \<and> (\<forall>k v. Headers m k = Some v \<longrightarrow> LF \<notin> set k \<and> CHR ''='' \<notin> set k \<and> LF \<notin> set v))"

text \<open>
  Two iterations of the session loop, as the environment gives them: one in which the
  client sends nothing and the destination sends a \<open>START\<close> response that is written
  to the client, and one in which neither side sends anything.
\<close>

definition startRound :: roundEnv where
  "startRound =
     \<lparr>clientRead = ([], Some ErrDeadlineExceeded), reqOrder = [], serverWrite = None,
      serverRead = (''iRTSP/1.21'' @ CRLF @ ''Seq=3'' @ CRLF @ ''RSP/START/200'' @ CRLF
                    @ ''sc=tls'' @ CRLF @ ''Submit'' @ CRLF, None),
      resOrder = [''sc''], clientWrite = None\<rparr>"

definition idleRound :: roundEnv where
  "idleRound =
     \<lparr>clientRead = ([], Some ErrDeadlineExceeded), reqOrder = [], serverWrite = None,
      serverRead = ([], Some ErrDeadlineExceeded), resOrder = [], clientWrite = None\<rparr>"

text \<open>
  The invariant of the relay: the counter of the wait group is the number of loops still
  running, and the connection to the destination is closed exactly when the relay has
  returned.
\<close>

definition relayInv :: "relay \<Rightarrow> bool" where
  "relayInv st =
     (wg st = (if clientLoop st then 1 else 0) + (if serverLoop st then 1 else 0)
      \<and> (if returned st then wg st = 0 \<and> \<not> serverConnOpen st else serverConnOpen st))"

text \<open>A relay between an accepted stream connection and the destination, just started.\<close>

definition tcpRelay :: relay where
  "tcpRelay = \<lparr>relayNetwork = ''tcp'', connRemoteAddr = Some ''10.0.0.2:50000'',
      serverRemoteAddr = Some ''140.227.187.170:40603'',
      clientLoop = True, serverLoop = True, wg = 2, returned = False,
      connOpen = True, serverConnOpen = True, sent = []\<rparr>"

section \<open>Properties of the library functions\<close>

lemma Split_no_sep: "sep \<notin> set s \<Longrightarrow> Split s sep = [s]"
  by (induction s) auto

lemma Split_not_Nil: "Split s sep \<noteq> []"
  by (induction s) (auto split: list.splits)

lemma length_Split: "length (Split s sep) = Suc (length (filter (\<lambda>c. c = sep) s))"
  using Split_not_Nil by (induction s) (auto split: list.splits)

lemma digit_cases:
  assumes "d < (10::nat)"
  shows "d \<in> {0, 1, 2, 3, 4, 5, 6, 7, 8, 9}"
  using assms by auto

lemma digitChar_props:
  assumes "d < 10"
  shows "isDigit (digitChar d)" and "digitVal (digitChar d) = d"
    and "digitChar d \<noteq> CHR ''-''" and "digitChar d \<noteq> CHR ''+''"
  using digit_cases[OF assms]
  by (auto simp add: digitChar_def isDigit_def digitVal_def)

lemma showNat_not_Nil: "showNat n \<noteq> []"
  by (subst showNat.simps) simp

lemma showNat_digits: "list_all isDigit (showNat n)"
proof (induction n rule: showNat.induct)
  case (1 n)
  show ?case
  proof (cases "n < 10")
    case True
    then show ?thesis by (subst showNat.simps) (simp add: digitChar_props)
  next
    case False
    with 1 show ?thesis by (subst showNat.simps) (simp add: digitChar_props)
  qed
qed

lemma readNat_snoc: "readNat (ds @ [c]) = readNat ds * 10 + digitVal c"
  by (simp add: readNat_def)

lemma readNat_showNat: "readNat (showNat n) = n"
proof (induction n rule: showNat.induct)
  case (1 n)
  show ?case
  proof (cases "n < 10")
    case True
    then show ?thesis by (subst showNat.simps) (simp add: readNat_def digitChar_props)
  next
    case False
    with 1 have "readNat (showNat (n div 10)) = n div 10" by simp
    with False show ?thesis
      by (subst showNat.simps) (simp add: readNat_snoc digitChar_props)
  qed
qed

lemma hd_showNat: "\<exists>c r. showNat n = c # r \<and> c \<noteq> CHR ''-'' \<and> c \<noteq> CHR ''+''"
proof (induction n rule: showNat.induct)
  case (1 n)
  show ?case
  proof (cases "n < 10")
    case True
    then show ?thesis by (subst showNat.simps) (simp add: digitChar_props)
  next
    case False
    with 1 obtain c r where "showNat (n div 10) = c # r" "c \<noteq> CHR ''-''" "c \<noteq> CHR ''+''"
      by blast
    with False show ?thesis by (subst showNat.simps) simp
  qed
qed

lemma Atoi_showNat:
  "int n < 2 ^ 63 \<Longrightarrow> Atoi (showNat n) = Some (word_of_int (int n))"
proof -
  assume b: "int n < 2 ^ 63"
  obtain c r where s: "showNat n = c # r" "c \<noteq> CHR ''-''" "c \<noteq> CHR ''+''"
    using hd_showNat by blast
  have d: "list_all isDigit (c # r)" using showNat_digits[of n] s by simp
  have v: "readNat (c # r) = n" using readNat_showNat[of n] s by simp
  have "- (2 ^ 63) \<le> int n" by (smt (verit) zero_less_power of_nat_0_le_iff)
  with b show ?thesis
    unfolding Atoi_def s(1) using s(2,3) d v by (simp add: Let_def)
qed

lemma Atoi_minus_showNat:
  "int n \<le> 2 ^ 63 \<Longrightarrow> Atoi (CHR ''-'' # showNat n) = Some (word_of_int (- int n))"
proof -
  assume b: "int n \<le> 2 ^ 63"
  have d: "list_all isDigit (showNat n)" by (rule showNat_digits)
  have "- int n < 2 ^ 63" by (smt (verit) zero_less_power of_nat_0_le_iff)
  with b show ?thesis
    unfolding Atoi_def using d showNat_not_Nil[of n] readNat_showNat[of n]
    by (simp add: Let_def)
qed

lemma Atoi_Sprintf_d: "Atoi (Sprintf_d w) = Some w"
proof (cases "sint w < 0")
  case True
  have "- (2 ^ 63) \<le> sint w" using sint_ge[of w] by simp
  then have "int (nat (- sint w)) \<le> 2 ^ 63" using True by simp
  from Atoi_minus_showNat[OF this] True show ?thesis
    by (simp add: Sprintf_d_def)
next
  case False
  have "sint w < 2 ^ 63" using sint_lt[of w] by simp
  then have "int (nat (sint w)) < 2 ^ 63" using False by simp
  from Atoi_showNat[OF this] False show ?thesis
    by (simp add: Sprintf_d_def)
qed

lemma isDigit_not_sep:
  "isDigit c \<Longrightarrow> c \<noteq> CHR ''/'' \<and> c \<noteq> CHR ''='' \<and> c \<noteq> LF"
  by (auto simp add: isDigit_def)

lemma showNat_no_sep:
  "CHR ''/'' \<notin> set (showNat n) \<and> CHR ''='' \<notin> set (showNat n) \<and> LF \<notin> set (showNat n)"
  using showNat_digits[of n] isDigit_not_sep by (auto simp add: list_all_iff)

lemma Sprintf_d_no_sep:
  "CHR ''/'' \<notin> set (Sprintf_d w) \<and> CHR ''='' \<notin> set (Sprintf_d w) \<and> LF \<notin> set (Sprintf_d w)"
  using showNat_no_sep by (simp add: Sprintf_d_def)

lemma ReplaceAll_no_LF: "LF \<notin> set t \<Longrightarrow> ReplaceAll t = t"
  by (induction t rule: ReplaceAll.induct) auto

lemma ReplaceAll_single: "LF \<notin> set t \<Longrightarrow> ReplaceAll (c # t) = c # t"
  by (cases t) (auto simp add: ReplaceAll_no_LF)

lemma ReplaceAll_append_no_LF: "LF \<notin> set t \<Longrightarrow> ReplaceAll (s @ t) = ReplaceAll s @ t"
  by (induction s rule: ReplaceAll.induct) (simp_all add: ReplaceAll_no_LF ReplaceAll_single)

lemma Split_append_no_sep:
  "sep \<notin> set t \<Longrightarrow> Split (s @ t) sep = butlast (Split s sep) @ [last (Split s sep) @ t]"
proof (induction s)
  case Nil
  then show ?case by (simp add: Split_no_sep)
next
  case (Cons c s)
  obtain l ls where ls: "Split s sep = l # ls"
    using Split_not_Nil[of s sep] by (cases "Split s sep") auto
  from Cons ls show ?case by (cases ls) (auto simp add: Split_not_Nil)
qed

lemma NewMessage_parseLines:
  "NewMessage message = parseLines (butlast (Split (ReplaceAll message) LF))"
  by (simp add: NewMessage_def Split_not_Nil)

section \<open>Properties of the codec\<close>

text \<open>
  Claim C1. Decoding is meant to return a best-effort message for every input and never
  to end in a run-time panic. The slices of \<open>NewMessage\<close> are indexed without a check
  of their length (the one check, \<open>len(messageLines) <= 0\<close>, comes before the last
  line is dropped and can never hold), so an input of fewer lines than the parser reads
  panics: the empty input, a single unterminated line, the terminator line alone, a
  version line alone, and a version line followed by a sequence line alone.
\<close>

theorem NewMessage_panics_on_short_input:
  "NewMessage [] = Inl IndexOutOfRange
   \<and> NewMessage ''iRTSP/1.21'' = Inl IndexOutOfRange
   \<and> NewMessage (''Submit'' @ CRLF) = Inl IndexOutOfRange
   \<and> NewMessage (''iRTSP/1.21'' @ CRLF) = Inl IndexOutOfRange
   \<and> NewMessage (''iRTSP/1.21'' @ CRLF @ ''Seq=0'' @ CRLF) = Inl IndexOutOfRange"
  by (simp add: NewMessage_def parseLines_def parseSequence_def parseMethod_def Cut_def
      Atoi_def isDigit_def readNat_def digitVal_def)

text \<open>
  Claim C10, as amended. \<open>NewMessage\<close> always discards the last piece of the split of
  the input at line breaks, whatever it is. So the text after the last line feed of the
  input never reaches the parser: an input that does not end in a line break (CR LF or a
  bare LF) loses its last line.
\<close>

theorem text_after_last_line_break_is_dropped:
  "NewMessage message = parseLines (butlast (Split (ReplaceAll message) LF))
   \<and> (LF \<notin> set t \<longrightarrow> NewMessage (s @ t) = NewMessage s)"
  by (simp add: NewMessage_parseLines ReplaceAll_append_no_LF Split_append_no_sep)

theorem text_after_last_line_break_is_dropped_witness:
  "NewMessage (''iRTSP/1.21'' @ CRLF @ ''Seq=1'' @ CRLF @ ''SET/PLAY'' @ CRLF @ ''k=v'')
   = Inr (Some \<lparr>Version = ''iRTSP/1.21'', Sequence = 1, Method = ''PLAY'', Code = 0,
                 Headers = Map.empty\<rparr>)"
proof -
  have "NewMessage ((''iRTSP/1.21'' @ CRLF @ ''Seq=1'' @ CRLF @ ''SET/PLAY'' @ CRLF) @ ''k=v'')
        = NewMessage (''iRTSP/1.21'' @ CRLF @ ''Seq=1'' @ CRLF @ ''SET/PLAY'' @ CRLF)"
    using text_after_last_line_break_is_dropped
      [where t = "''k=v''" and s = "''iRTSP/1.21'' @ CRLF @ ''Seq=1'' @ CRLF @ ''SET/PLAY'' @ CRLF"]
    by simp
  moreover have "NewMessage (''iRTSP/1.21'' @ CRLF @ ''Seq=1'' @ CRLF @ ''SET/PLAY'' @ CRLF)
     = Inr (Some \<lparr>Version = ''iRTSP/1.21'', Sequence = 1, Method = ''PLAY'', Code = 0,
                 Headers = Map.empty\<rparr>)"
    by (simp add: NewMessage_def parseLines_def parseSequence_def parseMethod_def
        parseHeaders_def setHeader_def Cut_def Atoi_def isDigit_def readNat_def digitVal_def
        emptyMessage_def)
  ultimately show ?thesis by simp
qed

text \<open>
  Claim C10, as stated, has every input that does not end in CR LF lose its last content
  line. An input whose lines end in a bare line feed does not end in CR LF, and its last
  header line is kept: the piece discarded is the empty one after the final line feed.
\<close>

theorem last_line_kept_after_bare_LF_counterexample:
  "\<not> suffix CRLF (''iRTSP/1.21'' @ [LF] @ ''Seq=1'' @ [LF] @ ''SET/PLAY'' @ [LF] @ ''k=v'' @ [LF])
   \<and> NewMessage (''iRTSP/1.21'' @ [LF] @ ''Seq=1'' @ [LF] @ ''SET/PLAY'' @ [LF] @ ''k=v'' @ [LF])
     = Inr (Some \<lparr>Version = ''iRTSP/1.21'', Sequence = 1, Method = ''PLAY'', Code = 0,
                   Headers = [''k'' \<mapsto> ''v'']\<rparr>)"
  by (simp add: suffix_def NewMessage_def parseLines_def parseSequence_def parseMethod_def
        parseHeaders_def setHeader_def Cut_def Atoi_def isDigit_def readNat_def digitVal_def
        emptyMessage_def)

lemma ReplaceAll_line: "LF \<notin> set l \<Longrightarrow> ReplaceAll (l @ CR # LF # rest) = l @ LF # ReplaceAll rest"
proof (induction l)
  case Nil
  then show ?case by simp
next
  case (Cons c l)
  then show ?case by (cases l) auto
qed

lemma Split_line: "sep \<notin> set l \<Longrightarrow> Split (l @ sep # rest) sep = l # Split rest sep"
  by (induction l) auto

lemma lines_roundtrip:
  "\<forall>l \<in> set ls. LF \<notin> set l
   \<Longrightarrow> Split (ReplaceAll (concat (map (\<lambda>l. l @ CRLF) ls))) LF = ls @ [[]]"
  by (induction ls) (simp_all add: ReplaceAll_line Split_line)

lemma headerLine_headerText:
  "k \<in> dom (Headers m) \<Longrightarrow> headerLine m k = headerText m k @ CRLF"
  by (auto simp add: headerLine_def headerText_def)

lemma concat_headerLines:
  "set ks \<subseteq> dom (Headers m)
   \<Longrightarrow> concat (map (headerLine m) ks) = concat (map (\<lambda>l. l @ CRLF) (map (headerText m) ks))"
  by (induction ks) (simp_all add: headerLine_headerText)

lemma ToBytes_encodedLines:
  "set order \<subseteq> dom (Headers m)
   \<Longrightarrow> ToBytes order m = concat (map (\<lambda>l. l @ CRLF) (encodedLines order m))"
  by (simp add: ToBytes_def encodedLines_def methodText_def concat_headerLines)

lemma headerText_no_LF:
  assumes "wellFormed order m" and "k \<in> set order"
  shows "LF \<notin> set (headerText m k)"
proof -
  from assms obtain v where v: "Headers m k = Some v" by (auto simp add: wellFormed_def)
  with assms(1) have "LF \<notin> set k \<and> LF \<notin> set v" by (simp add: wellFormed_def)
  with v show ?thesis by (simp add: headerText_def)
qed

lemma encodedLines_no_LF:
  assumes "wellFormed order m"
  shows "\<forall>l \<in> set (encodedLines order m). LF \<notin> set l"
proof -
  have "LF \<notin> set (methodText m)"
    using assms Sprintf_d_no_sep[of "Code m"] by (simp add: methodText_def wellFormed_def)
  moreover have "LF \<notin> set (''Seq='' @ Sprintf_d (Sequence m))"
    using Sprintf_d_no_sep[of "Sequence m"] by simp
  moreover have "LF \<notin> set (Version m)" using assms by (simp add: wellFormed_def)
  ultimately show ?thesis
    using headerText_no_LF[OF assms] by (auto simp add: encodedLines_def)
qed

lemma decoded_lines:
  assumes "wellFormed order m"
  shows "butlast (Split (ReplaceAll (ToBytes order m)) LF) = encodedLines order m"
proof -
  have "set order \<subseteq> dom (Headers m)" using assms by (simp add: wellFormed_def)
  then show ?thesis
    by (simp add: ToBytes_encodedLines lines_roundtrip[OF encodedLines_no_LF[OF assms]])
qed

lemma takeWhile_upto_sep:
  "sep \<notin> set a \<Longrightarrow> takeWhile (\<lambda>c. c \<noteq> sep) (a @ sep # b) = a"
  by (induction a) auto

lemma dropWhile_upto_sep:
  "sep \<notin> set a \<Longrightarrow> dropWhile (\<lambda>c. c \<noteq> sep) (a @ sep # b) = sep # b"
  by (induction a) auto

lemma Cut_found: "sep \<notin> set a \<Longrightarrow> Cut (a @ sep # b) sep = (a, b, True)"
  by (simp add: Cut_def takeWhile_upto_sep dropWhile_upto_sep del: dropWhile_append)

lemma Cut_not_found: "sep \<notin> set a \<Longrightarrow> Cut a sep = (a, [], False)"
  by (simp add: Cut_def)

lemma setHeader_headerText:
  assumes "Headers m k = Some v" and "CHR ''='' \<notin> set k"
  shows "setHeader msg (headerText m k) = msg\<lparr>Headers := (Headers msg)(k \<mapsto> v)\<rparr>"
proof (cases "v = []")
  case True
  with assms show ?thesis by (simp add: setHeader_def headerText_def Cut_not_found)
next
  case False
  have "Cut (k @ CHR ''='' # v) (CHR ''='') = (k, v, True)"
    using assms(2) by (rule Cut_found)
  with False assms(1) show ?thesis by (simp add: setHeader_def headerText_def)
qed

lemma parseHeaders_headerTexts:
  "\<forall>k \<in> set ks. \<exists>v. Headers m k = Some v \<and> CHR ''='' \<notin> set k
   \<Longrightarrow> parseHeaders msg (map (headerText m) ks)
       = msg\<lparr>Headers := (\<lambda>k. if k \<in> set ks then Headers m k else Headers msg k)\<rparr>"
  unfolding parseHeaders_def
proof (induction ks arbitrary: msg)
  case Nil
  then show ?case by simp
next
  case (Cons k ks)
  then obtain v where v: "Headers m k = Some v" "CHR ''='' \<notin> set k" by auto
  have "foldl setHeader msg (map (headerText m) (k # ks))
        = foldl setHeader (msg\<lparr>Headers := (Headers msg)(k \<mapsto> v)\<rparr>) (map (headerText m) ks)"
    by (simp add: setHeader_headerText[OF v])
  also have "\<dots> = msg\<lparr>Headers := (Headers msg)(k \<mapsto> v)\<rparr>
        \<lparr>Headers := (\<lambda>k'. if k' \<in> set ks then Headers m k'
                            else Headers (msg\<lparr>Headers := (Headers msg)(k \<mapsto> v)\<rparr>) k')\<rparr>"
    using Cons by simp
  also have "\<dots> = msg\<lparr>Headers := (\<lambda>k'. if k' \<in> set (k # ks) then Headers m k'
                                      else Headers msg k')\<rparr>"
    using v(1) by (auto simp add: fun_eq_iff)
  finally show ?case .
qed

lemma parseHeaders_encoded:
  assumes "wellFormed order m" and "Headers msg = Map.empty"
  shows "parseHeaders msg (map (headerText m) order) = msg\<lparr>Headers := Headers m\<rparr>"
proof -
  have "\<forall>k \<in> set order. \<exists>v. Headers m k = Some v \<and> CHR ''='' \<notin> set k"
    using assms(1) by (auto simp add: wellFormed_def)
  then have "parseHeaders msg (map (headerText m) order)
        = msg\<lparr>Headers := (\<lambda>k. if k \<in> set order then Headers m k else Headers msg k)\<rparr>"
    by (rule parseHeaders_headerTexts)
  moreover have "(\<lambda>k. if k \<in> set order then Headers m k else Headers msg k) = Headers m"
    using assms by (auto simp add: fun_eq_iff wellFormed_def)
  ultimately show ?thesis by simp
qed

lemma parseMethod_encoded:
  assumes "wellFormed order m" and "Headers msg = Map.empty" and "Code msg = 0"
  shows "parseMethod msg (methodText m # map (headerText m) order)
         = Inr (Some (msg\<lparr>Method := Method m, Code := Code m, Headers := Headers m\<rparr>))"
proof (cases "0 <s Code m")
  case True
  have 1: "Cut (''RSP/'' @ Method m @ ''/'' @ Sprintf_d (Code m)) (CHR ''/'')
           = (''RSP'', Method m @ ''/'' @ Sprintf_d (Code m), True)"
    using Cut_found[of "CHR ''/''" "''RSP''"] by simp
  have 2: "Cut (Method m @ ''/'' @ Sprintf_d (Code m)) (CHR ''/'')
           = (Method m, Sprintf_d (Code m), True)"
    using assms(1) Cut_found[of "CHR ''/''" "Method m"] by (simp add: wellFormed_def)
  have "parseHeaders (msg\<lparr>Method := Method m, Code := Code m\<rparr>) (map (headerText m) order)
        = msg\<lparr>Method := Method m, Code := Code m, Headers := Headers m\<rparr>"
    using parseHeaders_encoded[OF assms(1), of "msg\<lparr>Method := Method m, Code := Code m\<rparr>"]
      assms(2) by simp
  with True 1 2 show ?thesis
    by (simp add: parseMethod_def methodText_def Atoi_Sprintf_d)
next
  case False
  with assms(1) have c: "Code m = 0"
    by (simp add: wellFormed_def word_sless_alt word_sle_eq signed_eq_0_iff)
  have 1: "Cut (''SET/'' @ Method m) (CHR ''/'') = (''SET'', Method m, True)"
    using Cut_found[of "CHR ''/''" "''SET''"] by simp
  have "parseHeaders (msg\<lparr>Method := Method m\<rparr>) (map (headerText m) order)
        = msg\<lparr>Method := Method m, Headers := Headers m\<rparr>"
    using parseHeaders_encoded[OF assms(1), of "msg\<lparr>Method := Method m\<rparr>"] assms(2) by simp
  with False 1 c assms(3) show ?thesis
    by (simp add: parseMethod_def methodText_def)
qed

lemma parseSequence_encoded:
  assumes "wellFormed order m" and "Headers msg = Map.empty" and "Code msg = 0"
  shows "parseSequence msg
           ((''Seq='' @ Sprintf_d (Sequence m)) # methodText m # map (headerText m) order)
         = Inr (Some (msg\<lparr>Sequence := Sequence m, Method := Method m, Code := Code m,
                          Headers := Headers m\<rparr>))"
proof -
  have 1: "Cut (''Seq='' @ Sprintf_d (Sequence m)) (CHR ''='')
           = (''Seq'', Sprintf_d (Sequence m), True)"
    using Cut_found[of "CHR ''=''" "''Seq''"] by simp
  have "parseMethod (msg\<lparr>Sequence := Sequence m\<rparr>) (methodText m # map (headerText m) order)
        = Inr (Some (msg\<lparr>Sequence := Sequence m, Method := Method m, Code := Code m,
                          Headers := Headers m\<rparr>))"
    using parseMethod_encoded[OF assms(1), of "msg\<lparr>Sequence := Sequence m\<rparr>"] assms(2,3)
    by simp
  with 1 show ?thesis by (simp add: parseSequence_def Atoi_Sprintf_d)
qed

lemma parseLines_encoded:
  assumes "wellFormed order m"
  shows "parseLines (encodedLines order m) = Inr (Some m)"
proof -
  have b: "butlast (encodedLines order m)
           = Version m # (''Seq='' @ Sprintf_d (Sequence m)) # methodText m
             # map (headerText m) order"
    by (simp add: encodedLines_def butlast_append)
  have l: "last (encodedLines order m) = ''Submit''"
    by (simp add: encodedLines_def)
  have "parseSequence (emptyMessage\<lparr>Version := Version m\<rparr>)
           ((''Seq='' @ Sprintf_d (Sequence m)) # methodText m # map (headerText m) order)
        = Inr (Some (emptyMessage\<lparr>Version := Version m, Sequence := Sequence m,
             Method := Method m, Code := Code m, Headers := Headers m\<rparr>))"
    using parseSequence_encoded[OF assms, of "emptyMessage\<lparr>Version := Version m\<rparr>"]
    by (simp add: emptyMessage_def)
  moreover have "emptyMessage\<lparr>Version := Version m, Sequence := Sequence m,
             Method := Method m, Code := Code m, Headers := Headers m\<rparr> = m"
    by (simp add: emptyMessage_def)
  moreover have "encodedLines order m \<noteq> []" by (simp add: encodedLines_def)
  ultimately show ?thesis
    unfolding parseLines_def using b l by simp
qed

text \<open>
  Claim C2. For every well-formed message, whatever the order in which the header map is
  iterated, decoding the encoded message gives the message back: version, sequence,
  method, code and the header map.
\<close>

theorem decode_encode_roundtrip:
  "wellFormed order m \<Longrightarrow> NewMessage (ToBytes order m) = Inr (Some m)"
  by (simp add: NewMessage_parseLines decoded_lines parseLines_encoded)

theorem decode_encode_roundtrip_witness:
  "NewMessage (ToBytes [''sc'', ''v'']
      \<lparr>Version = ''iRTSP/1.21'', Sequence = 7, Method = ''SETUP'', Code = 200,
       Headers = [''v'' \<mapsto> ''iDataChunk/unicast/tcp/40603'', ''sc'' \<mapsto> []]\<rparr>)
   = Inr (Some \<lparr>Version = ''iRTSP/1.21'', Sequence = 7, Method = ''SETUP'', Code = 200,
       Headers = [''v'' \<mapsto> ''iDataChunk/unicast/tcp/40603'', ''sc'' \<mapsto> []]\<rparr>)
   \<and> NewMessage (ToBytes [''t'']
      \<lparr>Version = ''iRTSP/1.21'', Sequence = - 3, Method = ''START'', Code = 0,
       Headers = [''t'' \<mapsto> ''1429051'']\<rparr>)
   = Inr (Some \<lparr>Version = ''iRTSP/1.21'', Sequence = - 3, Method = ''START'', Code = 0,
       Headers = [''t'' \<mapsto> ''1429051'']\<rparr>)"
proof -
  have 1: "wellFormed [''sc'', ''v'']
      \<lparr>Version = ''iRTSP/1.21'', Sequence = 7, Method = ''SETUP'', Code = 200,
       Headers = [''v'' \<mapsto> ''iDataChunk/unicast/tcp/40603'', ''sc'' \<mapsto> []]\<rparr>"
    by (auto simp add: wellFormed_def word_sle_eq split: if_splits)
  have 2: "wellFormed [''t'']
      \<lparr>Version = ''iRTSP/1.21'', Sequence = - 3, Method = ''START'', Code = 0,
       Headers = [''t'' \<mapsto> ''1429051'']\<rparr>"
    by (auto simp add: wellFormed_def word_sle_eq split: if_splits)
  from decode_encode_roundtrip[OF 1] decode_encode_roundtrip[OF 2] show ?thesis by simp
qed

section \<open>Properties of the spawner\<close>

lemma startMediaConnection_no_slash:
  "CHR ''/'' \<notin> set h \<Longrightarrow> startMediaConnection h k = Inl IndexOutOfRange"
  by (simp add: startMediaConnection_def Split_no_sep)

lemma spawnerCalls_SETUP_no_v:
  "Method res = ''SETUP'' \<Longrightarrow> Headers res ''v'' = None
   \<Longrightarrow> \<exists>cs. spawnerCalls res = ([], ''VIDEO'') # cs"
  by (simp add: spawnerCalls_def headerValue_def Let_def)

text \<open>
  Claim C9. For every descriptor without a \<open>/\<close> (the empty string included) the
  spawner panics with an index out of range when it reads the second-to-last segment.
  A \<open>SETUP\<close> message from the destination that has no header \<open>v\<close> calls the spawner
  with the empty string: that one call is made, it panics, and the message is never
  forwarded.
\<close>

theorem spawner_panics_on_descriptor_without_slash:
  "(CHR ''/'' \<notin> set h \<longrightarrow> startMediaConnection h k = Inl IndexOutOfRange)
   \<and> (Method res = ''SETUP'' \<and> Headers res ''v'' = None \<longrightarrow>
        handleServerMessage disableTLS st res order werr
        = \<lparr>calls = [([], ''VIDEO'')], written = None, forwarded = None,
           outcome = Panic IndexOutOfRange\<rparr>)"
proof (intro conjI impI)
  assume "CHR ''/'' \<notin> set h"
  then show "startMediaConnection h k = Inl IndexOutOfRange"
    by (rule startMediaConnection_no_slash)
next
  assume a: "Method res = ''SETUP'' \<and> Headers res ''v'' = None"
  then obtain cs where cs: "spawnerCalls res = ([], ''VIDEO'') # cs"
    using spawnerCalls_SETUP_no_v by blast
  have "startMediaConnection [] ''VIDEO'' = Inl IndexOutOfRange"
    by (simp add: startMediaConnection_no_slash)
  then have "runSpawner (spawnerCalls res) = ([([], ''VIDEO'')], Inl IndexOutOfRange)"
    by (simp add: cs)
  then show "handleServerMessage disableTLS st res order werr
        = \<lparr>calls = [([], ''VIDEO'')], written = None, forwarded = None,
           outcome = Panic IndexOutOfRange\<rparr>"
    by (simp add: handleServerMessage_def)
qed

theorem spawner_panics_on_descriptor_without_slash_witness:
  "startMediaConnection ''40603'' ''VIDEO'' = Inl IndexOutOfRange
   \<and> handleServerMessage False \<lparr>conn = TCPConn, serverConn = TCPConn\<rparr>
        \<lparr>Version = ''iRTSP/1.21'', Sequence = 1, Method = ''SETUP'', Code = 200,
         Headers = [''a'' \<mapsto> ''iDataChunk/unicast/tcp/40604'']\<rparr> [''a''] None
      = \<lparr>calls = [([], ''VIDEO'')], written = None, forwarded = None,
         outcome = Panic IndexOutOfRange\<rparr>"
  using spawner_panics_on_descriptor_without_slash
    [of "''40603''" "''VIDEO''"
        "\<lparr>Version = ''iRTSP/1.21'', Sequence = 1, Method = ''SETUP'', Code = 200,
         Headers = [''a'' \<mapsto> ''iDataChunk/unicast/tcp/40604'']\<rparr>"
        False "\<lparr>conn = TCPConn, serverConn = TCPConn\<rparr>" "[''a'']" None]
  by simp


section \<open>Properties of the primary session\<close>

subsection \<open>The calls of the spawner\<close>

lemma TrimRight_decompose: "\<exists>n. s = TrimRight s c @ replicate n c"
proof -
  let ?P = "\<lambda>x. x = c"
  let ?n = "length (takeWhile ?P (rev s))"
  have "rev s = takeWhile ?P (rev s) @ dropWhile ?P (rev s)" by simp
  then have "rev (rev s) = rev (takeWhile ?P (rev s) @ dropWhile ?P (rev s))" by simp
  then have 1: "s = rev (dropWhile ?P (rev s)) @ rev (takeWhile ?P (rev s))"
    by (simp only: rev_rev_ident rev_append)
  have "takeWhile ?P (rev s) = replicate ?n c"
    by (metis (mono_tags, lifting) replicate_eqI set_takeWhileD)
  then have "rev (takeWhile ?P (rev s)) = replicate ?n c"
    by (metis rev_replicate)
  with 1 have "s = TrimRight s c @ replicate ?n c"
    by (simp add: TrimRight_def)
  then show ?thesis ..
qed

lemma TrimRight_last: "TrimRight s c = [] \<or> last (TrimRight s c) \<noteq> c"
proof (cases "dropWhile (\<lambda>x. x = c) (rev s)")
  case Nil
  then show ?thesis by (simp add: TrimRight_def)
next
  case (Cons y ys)
  then have "y \<noteq> c" using hd_dropWhile[of "\<lambda>x. x = c" "rev s"] by auto
  with Cons show ?thesis by (simp add: TrimRight_def)
qed

lemma spawnerCalls_KNOCK:
  "Method res = ''KNOCK'' \<Longrightarrow>
   spawnerCalls res = [(TrimRight (headerValue res ''p'') (CHR '';''), ''KNOCK'')]"
  by (simp add: spawnerCalls_def)

lemma runSpawner_single: "fst (runSpawner [(h, k)]) = [(h, k)]"
  by (simp split: sum.splits)

lemma calls_handleServerMessage:
  "calls (handleServerMessage disableTLS st res order werr) = fst (runSpawner (spawnerCalls res))"
  by (simp add: handleServerMessage_def Let_def split: prod.splits sum.splits)

lemma startMediaConnection_returns:
  assumes "CHR ''/'' \<in> set h"
  shows "\<exists>ch. startMediaConnection h k = Inr ch"
proof -
  have "filter (\<lambda>c. c = CHR ''/'') h \<noteq> []"
    using assms by (simp add: filter_empty_conv)
  then have "2 \<le> length (Split h (CHR ''/''))"
    by (cases "filter (\<lambda>c. c = CHR ''/'') h") (simp_all add: length_Split)
  then show ?thesis
    by (simp add: startMediaConnection_def Let_def Split_not_Nil split: option.splits)
qed

lemma runSpawner_returns:
  "\<forall>(h, k) \<in> set cs. CHR ''/'' \<in> set h \<Longrightarrow> \<exists>chs. runSpawner cs = (cs, Inr chs)"
proof (induction cs)
  case Nil
  then show ?case by simp
next
  case (Cons c cs)
  obtain h k where c: "c = (h, k)" by (cases c)
  with Cons.prems have "CHR ''/'' \<in> set h" by simp
  then obtain ch where "startMediaConnection h k = Inr ch"
    using startMediaConnection_returns by blast
  moreover obtain chs where "runSpawner cs = (cs, Inr chs)"
    using Cons by auto
  ultimately show ?case by (simp add: c)
qed

lemma outcome_handleServerMessage_Panic:
  "outcome (handleServerMessage disableTLS st res order werr) = Panic e
   \<longleftrightarrow> snd (runSpawner (spawnerCalls res)) = Inl e"
  by (auto simp add: handleServerMessage_def Let_def split: prod.splits sum.splits)

lemma spawnerCalls_SETUP:
  "Method res = ''SETUP'' \<Longrightarrow>
   spawnerCalls res = setupCalls (headerValue res ''v'') (headerValue res ''a'') (headerValue res ''c'')"
  by (simp add: spawnerCalls_def setupCalls_def Let_def)

text \<open>
  Claim C3, as amended. For a message from the destination with method \<open>KNOCK\<close> the
  spawner is called once, with kind \<open>KNOCK\<close> and the value of header \<open>p\<close> without
  any of its trailing semicolons: \<open>p\<close> is that descriptor followed by semicolons only,
  and the descriptor does not end in a semicolon.
\<close>

theorem knock_descriptor_has_all_semicolons_trimmed:
  "Method res = ''KNOCK'' \<Longrightarrow>
   calls (handleServerMessage disableTLS st res order werr)
     = [(TrimRight (headerValue res ''p'') (CHR '';''), ''KNOCK'')]
   \<and> (\<exists>n. headerValue res ''p''
           = TrimRight (headerValue res ''p'') (CHR '';'') @ replicate n (CHR '';''))
   \<and> (TrimRight (headerValue res ''p'') (CHR '';'') = []
        \<or> last (TrimRight (headerValue res ''p'') (CHR '';'')) \<noteq> CHR '';'')"
  using TrimRight_decompose[of "headerValue res ''p''" "CHR '';''"]
    TrimRight_last[of "headerValue res ''p''" "CHR '';''"]
  by (simp add: calls_handleServerMessage spawnerCalls_KNOCK runSpawner_single del: runSpawner.simps)

theorem knock_descriptor_has_all_semicolons_trimmed_witness:
  "calls (handleServerMessage False \<lparr>conn = TCPConn, serverConn = TCPConn\<rparr>
      \<lparr>Version = ''iRTSP/1.21'', Sequence = 2, Method = ''KNOCK'', Code = 200,
       Headers = [''p'' \<mapsto> ''iDataChunk/unicast/tcp/40605;'']\<rparr> [''p''] None)
   = [(''iDataChunk/unicast/tcp/40605'', ''KNOCK'')]"
  using knock_descriptor_has_all_semicolons_trimmed
    [of "\<lparr>Version = ''iRTSP/1.21'', Sequence = 2, Method = ''KNOCK'', Code = 200,
       Headers = [''p'' \<mapsto> ''iDataChunk/unicast/tcp/40605;'']\<rparr>"
       False "\<lparr>conn = TCPConn, serverConn = TCPConn\<rparr>" "[''p'']" None]
  by (simp add: headerValue_def TrimRight_def)

text \<open>
  Claim C3, as stated, says that one semicolon at most is removed, so that a value ending
  in \<open>;;\<close> keeps one. The code removes both.
\<close>

theorem knock_two_semicolons_counterexample:
  "calls (handleServerMessage False \<lparr>conn = TCPConn, serverConn = TCPConn\<rparr>
      \<lparr>Version = ''iRTSP/1.21'', Sequence = 2, Method = ''KNOCK'', Code = 200,
       Headers = [''p'' \<mapsto> ''iDataChunk/unicast/tcp/40605;;'']\<rparr> [''p''] None)
   = [(''iDataChunk/unicast/tcp/40605'', ''KNOCK'')]
   \<and> spec_trimOne ''iDataChunk/unicast/tcp/40605;;'' = ''iDataChunk/unicast/tcp/40605;''"
  by (simp add: calls_handleServerMessage spawnerCalls_KNOCK runSpawner_single
      headerValue_def TrimRight_def spec_trimOne_def del: runSpawner.simps)


text \<open>
  The calls for a \<open>SETUP\<close> message whose header values \<open>v\<close>, \<open>a\<close> and \<open>c\<close>
  each contain a \<open>/\<close>: the spawner is called for \<open>VIDEO\<close> with \<open>v\<close>; then for
  \<open>AUDIO\<close> with \<open>a\<close> exactly when \<open>a\<close> differs from \<open>v\<close>; then for
  \<open>CONTROL\<close> with \<open>c\<close> exactly when \<open>c\<close> differs from both; and no call
  panics.
\<close>

theorem setup_spawns_video_audio_control:
  assumes "Method res = ''SETUP''"
    and "CHR ''/'' \<in> set (headerValue res ''v'')"
    and "CHR ''/'' \<in> set (headerValue res ''a'')"
    and "CHR ''/'' \<in> set (headerValue res ''c'')"
  shows "calls (handleServerMessage disableTLS st res order werr)
         = [(headerValue res ''v'', ''VIDEO'')]
           @ (if headerValue res ''a'' \<noteq> headerValue res ''v''
              then [(headerValue res ''a'', ''AUDIO'')] else [])
           @ (if headerValue res ''c'' \<noteq> headerValue res ''v''
                 \<and> headerValue res ''c'' \<noteq> headerValue res ''a''
              then [(headerValue res ''c'', ''CONTROL'')] else [])
         \<and> (\<forall>e. outcome (handleServerMessage disableTLS st res order werr) \<noteq> Panic e)"
proof -
  let ?cs = "setupCalls (headerValue res ''v'') (headerValue res ''a'') (headerValue res ''c'')"
  have "\<forall>(h, k) \<in> set ?cs. CHR ''/'' \<in> set h"
    using assms(2-4) by (auto simp add: setupCalls_def)
  then obtain chs where "runSpawner ?cs = (?cs, Inr chs)"
    using runSpawner_returns by blast
  then show ?thesis
    using assms(1)
    by (simp add: calls_handleServerMessage outcome_handleServerMessage_Panic
        spawnerCalls_SETUP) (simp add: setupCalls_def)
qed


theorem setup_spawns_video_audio_control_witness:
  "calls (handleServerMessage False \<lparr>conn = TCPConn, serverConn = TCPConn\<rparr>
      \<lparr>Version = ''iRTSP/1.21'', Sequence = 1, Method = ''SETUP'', Code = 200,
       Headers = [''v'' \<mapsto> ''iDataChunk/unicast/tcp/40603'',
                  ''a'' \<mapsto> ''iDataChunk/unicast/tcp/40603'',
                  ''c'' \<mapsto> ''iDataChunk/unicast/tcp/40604'']\<rparr> [''v'', ''a'', ''c''] None)
   = [(''iDataChunk/unicast/tcp/40603'', ''VIDEO''),
      (''iDataChunk/unicast/tcp/40604'', ''CONTROL'')]"
  using setup_spawns_video_audio_control
    [of "\<lparr>Version = ''iRTSP/1.21'', Sequence = 1, Method = ''SETUP'', Code = 200,
       Headers = [''v'' \<mapsto> ''iDataChunk/unicast/tcp/40603'',
                  ''a'' \<mapsto> ''iDataChunk/unicast/tcp/40603'',
                  ''c'' \<mapsto> ''iDataChunk/unicast/tcp/40604'']\<rparr>"
       False "\<lparr>conn = TCPConn, serverConn = TCPConn\<rparr>" "[''v'', ''a'', ''c'']" None]
  by (simp add: headerValue_def)

text \<open>
  Claim C6. Every \<open>SETUP\<close> message from the destination is to spawn \<open>VIDEO\<close> from
  \<open>v\<close>, \<open>AUDIO\<close> from \<open>a\<close> when it differs from \<open>v\<close>, and \<open>CONTROL\<close>
  from \<open>c\<close> when it differs from both, so that \<open>v = a = X\<close>, \<open>c = Y\<close> gives one
  \<open>VIDEO\<close> and one \<open>CONTROL\<close> channel. The calls run one after the other, and with
  an \<open>X\<close> that has no \<open>/\<close> the call for \<open>VIDEO\<close> panics: the call for
  \<open>CONTROL\<close> is never made and the message is not forwarded.
\<close>

theorem setup_video_descriptor_without_slash_panics:
  "handleServerMessage False \<lparr>conn = TCPConn, serverConn = TCPConn\<rparr>
      \<lparr>Version = ''iRTSP/1.21'', Sequence = 1, Method = ''SETUP'', Code = 200,
       Headers = [''v'' \<mapsto> ''40603'', ''a'' \<mapsto> ''40603'',
                  ''c'' \<mapsto> ''iDataChunk/unicast/tcp/40604'']\<rparr> [''v'', ''a'', ''c''] None
   = \<lparr>calls = [(''40603'', ''VIDEO'')], written = None, forwarded = None,
      outcome = Panic IndexOutOfRange\<rparr>"
  by (simp add: handleServerMessage_def spawnerCalls_def headerValue_def
      startMediaConnection_def)

subsection \<open>The session upgrade\<close>

lemma spawnerCalls_START: "Method res = ''START'' \<Longrightarrow> spawnerCalls res = []"
  by (simp add: spawnerCalls_def)

lemma handleServerMessage_START:
  "Method res = ''START'' \<Longrightarrow>
   handleServerMessage disableTLS st res order werr
   = \<lparr>calls = [], written = Some (ToBytes order (rewriteScheme disableTLS res)),
      forwarded = Some (rewriteScheme disableTLS res),
      outcome = (if werr \<noteq> None then Break
                 else Continue (upgrade disableTLS (rewriteScheme disableTLS res) st))\<rparr>"
  by (simp add: handleServerMessage_def spawnerCalls_START Let_def)

text \<open>
  Claim C7. For a message from the destination with method \<open>START\<close>: when TLS is
  disabled and header \<open>sc\<close> has the value \<open>tls\<close>, the message written to the client
  is the message with \<open>sc\<close> set to the empty string; when TLS is not disabled, the
  message written is the message read.
\<close>

theorem start_scheme_header_rewritten_when_tls_disabled:
  "Method res = ''START'' \<Longrightarrow>
   (disableTLS \<and> Headers res ''sc'' = Some ''tls'' \<longrightarrow>
      forwarded (handleServerMessage disableTLS st res order werr)
        = Some (res\<lparr>Headers := (Headers res)(''sc'' \<mapsto> [])\<rparr>)
      \<and> written (handleServerMessage disableTLS st res order werr)
        = Some (ToBytes order (res\<lparr>Headers := (Headers res)(''sc'' \<mapsto> [])\<rparr>)))
   \<and> (\<not> disableTLS \<longrightarrow>
      forwarded (handleServerMessage disableTLS st res order werr) = Some res
      \<and> written (handleServerMessage disableTLS st res order werr) = Some (ToBytes order res))"
  by (simp add: handleServerMessage_START rewriteScheme_def)

theorem start_scheme_header_rewritten_when_tls_disabled_witness:
  "forwarded (handleServerMessage True \<lparr>conn = TCPConn, serverConn = TCPConn\<rparr>
      \<lparr>Version = ''iRTSP/1.21'', Sequence = 3, Method = ''START'', Code = 200,
       Headers = [''sc'' \<mapsto> ''tls'']\<rparr> [''sc''] None)
   = Some \<lparr>Version = ''iRTSP/1.21'', Sequence = 3, Method = ''START'', Code = 200,
       Headers = [''sc'' \<mapsto> []]\<rparr>
   \<and> written (handleServerMessage True \<lparr>conn = TCPConn, serverConn = TCPConn\<rparr>
      \<lparr>Version = ''iRTSP/1.21'', Sequence = 3, Method = ''START'', Code = 200,
       Headers = [''sc'' \<mapsto> ''tls'']\<rparr> [''sc''] None)
   = Some (''iRTSP/1.21'' @ CRLF @ ''Seq=3'' @ CRLF @ ''RSP/START/200'' @ CRLF
           @ ''sc'' @ CRLF @ ''Submit'' @ CRLF)
   \<and> forwarded (handleServerMessage False \<lparr>conn = TCPConn, serverConn = TCPConn\<rparr>
      \<lparr>Version = ''iRTSP/1.21'', Sequence = 3, Method = ''START'', Code = 200,
       Headers = [''sc'' \<mapsto> ''tls'']\<rparr> [''sc''] None)
   = Some \<lparr>Version = ''iRTSP/1.21'', Sequence = 3, Method = ''START'', Code = 200,
       Headers = [''sc'' \<mapsto> ''tls'']\<rparr>"
  using start_scheme_header_rewritten_when_tls_disabled
    [of "\<lparr>Version = ''iRTSP/1.21'', Sequence = 3, Method = ''START'', Code = 200,
       Headers = [''sc'' \<mapsto> ''tls'']\<rparr>" True
       "\<lparr>conn = TCPConn, serverConn = TCPConn\<rparr>" "[''sc'']" None]
    start_scheme_header_rewritten_when_tls_disabled
    [of "\<lparr>Version = ''iRTSP/1.21'', Sequence = 3, Method = ''START'', Code = 200,
       Headers = [''sc'' \<mapsto> ''tls'']\<rparr>" False
       "\<lparr>conn = TCPConn, serverConn = TCPConn\<rparr>" "[''sc'']" None]
  by (simp add: ToBytes_def headerLine_def Sprintf_d_def showNat.simps digitChar_def
      word_sless_alt)


lemma Method_rewriteScheme [simp]: "Method (rewriteScheme disableTLS res) = Method res"
  by (simp add: rewriteScheme_def split: option.splits)

lemma upgrade_rewriteScheme [simp]:
  "upgrade disableTLS (rewriteScheme d res) st = upgrade disableTLS res st"
  by (simp add: upgrade_def)

lemma upgrade_START:
  "Method res = ''START'' \<Longrightarrow>
   upgrade disableTLS res st
   = \<lparr>conn = (if disableTLS then conn st else tls_Server (conn st)),
      serverConn = tls_Client (serverConn st)\<rparr>"
  by (simp add: upgrade_def)

lemma upgrade_other: "Method res \<noteq> ''START'' \<Longrightarrow> upgrade disableTLS res st = st"
  by (simp add: upgrade_def)

lemma upgrade_keeps_secure:
  "(roleOf (conn st) \<noteq> Plain \<longrightarrow> roleOf (conn (upgrade disableTLS res st)) \<noteq> Plain)
   \<and> (roleOf (serverConn st) \<noteq> Plain \<longrightarrow> roleOf (serverConn (upgrade disableTLS res st)) \<noteq> Plain)"
  by (simp add: upgrade_def)

lemma handleServerMessage_Continue:
  "outcome (handleServerMessage disableTLS st res order werr) = Continue st'
   \<Longrightarrow> st' = upgrade disableTLS res st"
  by (auto simp add: handleServerMessage_def Let_def split: prod.splits sum.splits if_splits)

lemma handleServerData_Continue:
  "outcome (handleServerData disableTLS st buffer order werr) = Continue st'
   \<Longrightarrow> \<exists>res. NewMessage buffer = Inr (Some res) \<and> st' = upgrade disableTLS res st"
  by (auto simp add: handleServerData_def split: sum.splits option.splits
      dest: handleServerMessage_Continue)

lemma handleClientData_Continue:
  "outcome (handleClientData st buffer order werr) = Continue st' \<Longrightarrow> st' = st"
  by (auto simp add: handleClientData_def split: sum.splits option.splits if_splits)

lemma serverHalf_Continue:
  "serverHalf disableTLS st env = Continue st'
   \<Longrightarrow> st' = st \<or> (\<exists>res. NewMessage (fst (serverRead env)) = Inr (Some res)
                        \<and> st' = upgrade disableTLS res st)"
  by (auto simp add: serverHalf_def split: prod.splits if_splits
      dest: handleServerData_Continue)

lemma round_Continue:
  "round disableTLS st env = Continue st'
   \<Longrightarrow> st' = st \<or> (\<exists>res. NewMessage (fst (serverRead env)) = Inr (Some res)
                        \<and> st' = upgrade disableTLS res st)"
  by (auto simp add: round_def split: prod.splits if_splits outcome.splits
      dest: handleClientData_Continue serverHalf_Continue)

lemma round_START:
  assumes "\<not> terminal (snd (clientRead env))"
    and "fst (clientRead env) = []
         \<or> ((\<exists>req. NewMessage (fst (clientRead env)) = Inr (Some req)) \<and> serverWrite env = None)"
    and "\<not> terminal (snd (serverRead env))" and "fst (serverRead env) \<noteq> []"
    and "NewMessage (fst (serverRead env)) = Inr (Some sres)" and "Method sres = ''START''"
    and "clientWrite env = None"
  shows "round disableTLS st env
         = Continue \<lparr>conn = (if disableTLS then conn st else tls_Server (conn st)),
                     serverConn = tls_Client (serverConn st)\<rparr>"
proof -
  obtain cb ce where c: "clientRead env = (cb, ce)" by (cases "clientRead env")
  obtain sb se where r: "serverRead env = (sb, se)" by (cases "serverRead env")
  have h: "serverHalf disableTLS st env
           = Continue \<lparr>conn = (if disableTLS then conn st else tls_Server (conn st)),
                       serverConn = tls_Client (serverConn st)\<rparr>"
    using assms(3-7) r
    by (simp add: serverHalf_def handleServerData_def handleServerMessage_START upgrade_START)
  show ?thesis
  proof (cases "cb = []")
    case True
    with assms(1) c h show ?thesis by (simp add: round_def)
  next
    case False
    with assms(2) c obtain req where "NewMessage cb = Inr (Some req)" "serverWrite env = None"
      by auto
    with False assms(1) c h show ?thesis by (simp add: round_def handleClientData_def)
  qed
qed

lemma rounds_keep_secure:
  "rounds disableTLS st envs = Continue st'
   \<Longrightarrow> (roleOf (conn st) \<noteq> Plain \<longrightarrow> roleOf (conn st') \<noteq> Plain)
       \<and> (roleOf (serverConn st) \<noteq> Plain \<longrightarrow> roleOf (serverConn st') \<noteq> Plain)"
proof (induction envs arbitrary: st)
  case Nil
  then show ?case by simp
next
  case (Cons env envs)
  then obtain st1 where 1: "round disableTLS st env = Continue st1"
    and 2: "rounds disableTLS st1 envs = Continue st'"
    by (auto split: outcome.splits)
  from round_Continue[OF 1] upgrade_keeps_secure[of st disableTLS]
  have "(roleOf (conn st) \<noteq> Plain \<longrightarrow> roleOf (conn st1) \<noteq> Plain)
       \<and> (roleOf (serverConn st) \<noteq> Plain \<longrightarrow> roleOf (serverConn st1) \<noteq> Plain)"
    by auto
  with Cons.IH[OF 2] show ?case by simp
qed

text \<open>
  Claim C8. When a message from the destination with method \<open>START\<close> has been written
  to the client, the iteration ends with the destination leg wrapped as a TLS client and
  the client leg wrapped as a TLS server, unless TLS is disabled, in which case the client
  leg is unchanged. An iteration that reads such a message from the destination, and
  whose reads and writes do not fail, ends so, and the iterations that follow start from
  the upgraded legs, whatever the session was before. A message of another method leaves
  both legs as they are, an iteration changes the legs in no other way, and over any
  number of iterations a leg that is not plain stays not plain.
\<close>

theorem start_upgrades_tls_roles:
  "(Method res = ''START'' \<longrightarrow>
      outcome (handleServerMessage disableTLS st res order None)
        = Continue \<lparr>conn = (if disableTLS then conn st else tls_Server (conn st)),
                    serverConn = tls_Client (serverConn st)\<rparr>
      \<and> roleOf (tls_Client (serverConn st)) = SecureClient
      \<and> roleOf (tls_Server (conn st)) = SecureServer)
   \<and> (Method res \<noteq> ''START'' \<longrightarrow>
        outcome (handleServerMessage disableTLS st res order werr) = Continue st' \<longrightarrow> st' = st)
   \<and> (round disableTLS st env = Continue st' \<longrightarrow>
        st' = st
        \<or> (\<exists>r. NewMessage (fst (serverRead env)) = Inr (Some r) \<and> Method r = ''START''
                \<and> st' = \<lparr>conn = (if disableTLS then conn st else tls_Server (conn st)),
                          serverConn = tls_Client (serverConn st)\<rparr>))
   \<and> (rounds disableTLS st envs = Continue st'' \<longrightarrow>
        (roleOf (conn st) \<noteq> Plain \<longrightarrow> roleOf (conn st'') \<noteq> Plain)
        \<and> (roleOf (serverConn st) \<noteq> Plain \<longrightarrow> roleOf (serverConn st'') \<noteq> Plain))
   \<and> (\<not> terminal (snd (clientRead env))
       \<and> (fst (clientRead env) = []
            \<or> ((\<exists>req. NewMessage (fst (clientRead env)) = Inr (Some req))
                \<and> serverWrite env = None))
       \<and> \<not> terminal (snd (serverRead env)) \<and> fst (serverRead env) \<noteq> []
       \<and> NewMessage (fst (serverRead env)) = Inr (Some sres) \<and> Method sres = ''START''
       \<and> clientWrite env = None \<longrightarrow>
        round disableTLS st env
          = Continue \<lparr>conn = (if disableTLS then conn st else tls_Server (conn st)),
                      serverConn = tls_Client (serverConn st)\<rparr>
        \<and> rounds disableTLS st (env # envs)
          = rounds disableTLS \<lparr>conn = (if disableTLS then conn st else tls_Server (conn st)),
                                serverConn = tls_Client (serverConn st)\<rparr> envs)"
proof (intro conjI impI)
  assume "Method res = ''START''"
  then show "outcome (handleServerMessage disableTLS st res order None)
        = Continue \<lparr>conn = (if disableTLS then conn st else tls_Server (conn st)),
                    serverConn = tls_Client (serverConn st)\<rparr>"
    by (simp add: handleServerMessage_START upgrade_START)
next
  show "roleOf (tls_Client (serverConn st)) = SecureClient" by simp
next
  show "roleOf (tls_Server (conn st)) = SecureServer" by simp
next
  assume "Method res \<noteq> ''START''"
    and "outcome (handleServerMessage disableTLS st res order werr) = Continue st'"
  then show "st' = st"
    using handleServerMessage_Continue upgrade_other by metis
next
  assume "round disableTLS st env = Continue st'"
  from round_Continue[OF this]
  show "st' = st
        \<or> (\<exists>r. NewMessage (fst (serverRead env)) = Inr (Some r) \<and> Method r = ''START''
                \<and> st' = \<lparr>conn = (if disableTLS then conn st else tls_Server (conn st)),
                          serverConn = tls_Client (serverConn st)\<rparr>)"
    by (metis upgrade_other upgrade_START)
next
  assume r: "rounds disableTLS st envs = Continue st''" and "roleOf (conn st) \<noteq> Plain"
  then show "roleOf (conn st'') \<noteq> Plain" using rounds_keep_secure by blast
next
  assume r: "rounds disableTLS st envs = Continue st''" and "roleOf (serverConn st) \<noteq> Plain"
  then show "roleOf (serverConn st'') \<noteq> Plain" using rounds_keep_secure by blast
next
  assume a: "\<not> terminal (snd (clientRead env))
       \<and> (fst (clientRead env) = []
            \<or> ((\<exists>req. NewMessage (fst (clientRead env)) = Inr (Some req))
                \<and> serverWrite env = None))
       \<and> \<not> terminal (snd (serverRead env)) \<and> fst (serverRead env) \<noteq> []
       \<and> NewMessage (fst (serverRead env)) = Inr (Some sres) \<and> Method sres = ''START''
       \<and> clientWrite env = None"
  then have u: "round disableTLS st env
          = Continue \<lparr>conn = (if disableTLS then conn st else tls_Server (conn st)),
                      serverConn = tls_Client (serverConn st)\<rparr>"
    using round_START[of env sres disableTLS st] by blast
  then show "round disableTLS st env
          = Continue \<lparr>conn = (if disableTLS then conn st else tls_Server (conn st)),
                      serverConn = tls_Client (serverConn st)\<rparr>" .
  from u show "rounds disableTLS st (env # envs)
          = rounds disableTLS \<lparr>conn = (if disableTLS then conn st else tls_Server (conn st)),
                                serverConn = tls_Client (serverConn st)\<rparr> envs"
    by simp
qed

theorem start_upgrades_tls_roles_witness:
  "outcome (handleServerMessage False \<lparr>conn = TCPConn, serverConn = TCPConn\<rparr>
      \<lparr>Version = ''iRTSP/1.21'', Sequence = 3, Method = ''START'', Code = 200,
       Headers = [''sc'' \<mapsto> ''tls'']\<rparr> [''sc''] None)
   = Continue \<lparr>conn = tls_Server TCPConn, serverConn = tls_Client TCPConn\<rparr>
   \<and> round False \<lparr>conn = TCPConn, serverConn = TCPConn\<rparr> startRound
     = Continue \<lparr>conn = tls_Server TCPConn, serverConn = tls_Client TCPConn\<rparr>
   \<and> rounds False \<lparr>conn = TCPConn, serverConn = TCPConn\<rparr> [startRound, idleRound]
     = Continue \<lparr>conn = tls_Server TCPConn, serverConn = tls_Client TCPConn\<rparr>
   \<and> rounds True \<lparr>conn = TCPConn, serverConn = TCPConn\<rparr> [idleRound, startRound, idleRound]
     = Continue \<lparr>conn = TCPConn, serverConn = tls_Client TCPConn\<rparr>
   \<and> rounds False \<lparr>conn = tls_Server TCPConn, serverConn = tls_Client TCPConn\<rparr> [idleRound]
     = Continue \<lparr>conn = tls_Server TCPConn, serverConn = tls_Client TCPConn\<rparr>"
proof -
  have decoded: "NewMessage (fst (serverRead startRound))
        = Inr (Some \<lparr>Version = ''iRTSP/1.21'', Sequence = 3, Method = ''START'', Code = 200,
                      Headers = [''sc'' \<mapsto> ''tls'']\<rparr>)"
    by (simp add: startRound_def NewMessage_def parseLines_def parseSequence_def
        parseMethod_def parseHeaders_def setHeader_def Cut_def Atoi_def isDigit_def
        readNat_def digitVal_def emptyMessage_def)
  have env: "\<not> terminal (snd (clientRead startRound))" "fst (clientRead startRound) = []"
    "\<not> terminal (snd (serverRead startRound))" "fst (serverRead startRound) \<noteq> []"
    "clientWrite startRound = None"
    by (simp_all add: startRound_def terminal_def)
  have idle: "\<And>d st. round d st idleRound = Continue st"
    by (simp add: round_def serverHalf_def idleRound_def terminal_def)
  note plain = start_upgrades_tls_roles
    [where res = "\<lparr>Version = ''iRTSP/1.21'', Sequence = 3, Method = ''START'', Code = 200,
          Headers = [''sc'' \<mapsto> ''tls'']\<rparr>"
       and sres = "\<lparr>Version = ''iRTSP/1.21'', Sequence = 3, Method = ''START'', Code = 200,
          Headers = [''sc'' \<mapsto> ''tls'']\<rparr>"
       and disableTLS = False and st = "\<lparr>conn = TCPConn, serverConn = TCPConn\<rparr>"
       and order = "[''sc'']" and env = startRound and envs = "[idleRound]"
       and st' = "\<lparr>conn = tls_Server TCPConn, serverConn = tls_Client TCPConn\<rparr>"
       and werr = None and st'' = "\<lparr>conn = TCPConn, serverConn = TCPConn\<rparr>"]
  note disabled = start_upgrades_tls_roles
    [where res = "\<lparr>Version = ''iRTSP/1.21'', Sequence = 3, Method = ''START'', Code = 200,
          Headers = [''sc'' \<mapsto> ''tls'']\<rparr>"
       and sres = "\<lparr>Version = ''iRTSP/1.21'', Sequence = 3, Method = ''START'', Code = 200,
          Headers = [''sc'' \<mapsto> ''tls'']\<rparr>"
       and disableTLS = True and st = "\<lparr>conn = TCPConn, serverConn = TCPConn\<rparr>"
       and order = "[''sc'']" and env = startRound and envs = "[idleRound]"
       and st' = "\<lparr>conn = TCPConn, serverConn = tls_Client TCPConn\<rparr>"
       and werr = None and st'' = "\<lparr>conn = TCPConn, serverConn = TCPConn\<rparr>"]
  note secured = start_upgrades_tls_roles
    [where res = "\<lparr>Version = ''iRTSP/1.21'', Sequence = 4, Method = ''PLAY'', Code = 0,
          Headers = Map.empty\<rparr>"
       and sres = "\<lparr>Version = ''iRTSP/1.21'', Sequence = 3, Method = ''START'', Code = 200,
          Headers = [''sc'' \<mapsto> ''tls'']\<rparr>"
       and disableTLS = False
       and st = "\<lparr>conn = tls_Server TCPConn, serverConn = tls_Client TCPConn\<rparr>"
       and order = "[]" and env = idleRound and envs = "[idleRound]"
       and st' = "\<lparr>conn = tls_Server TCPConn, serverConn = tls_Client TCPConn\<rparr>"
       and werr = None
       and st'' = "\<lparr>conn = tls_Server TCPConn, serverConn = tls_Client TCPConn\<rparr>"]
  from plain disabled secured decoded env idle show ?thesis by simp
qed


section \<open>Properties of the relay\<close>

lemma relayStep_invariant: "relayInv st \<Longrightarrow> relayInv (relayStep st e)"
  by (cases e) (auto simp add: relayInv_def Let_def split: if_splits)

lemma relayRun_invariant: "relayInv st \<Longrightarrow> relayInv (relayRun st es)"
  unfolding relayRun_def
proof (induction es arbitrary: st)
  case Nil
  then show ?case by simp
next
  case (Cons e es)
  from Cons.IH[OF relayStep_invariant[OF Cons.prems, of e]] show ?case by simp
qed

lemma relayInv_start:
  "handleMediaConnection serverAddress True c network port kind = Some r \<Longrightarrow> relayInv r"
  by (auto simp add: handleMediaConnection_def relayInv_def)

lemma relayRun_snoc: "relayRun st (es @ [e]) = relayStep (relayRun st es) e"
  by (simp add: relayRun_def)

text \<open>
  Claim C4, as amended. In \<open>handleMediaConnection\<close> a terminal error on a copy
  direction, that is a read error other than a passed deadline, or any error of the write
  that forwards a non-empty read, ends that direction, and nothing else does; it leaves
  the other direction running, so that one runs on until its own terminal error. The
  relay returns only once both directions have ended, it can return then, and the
  connection to the destination is closed when it has returned and not before.
\<close>

theorem relay_ends_one_direction_and_joins:
  "(clientLoop st \<longrightarrow>
      clientLoop (relayStep st (ClientRead sender buffer rerr werr))
        = (\<not> (terminal rerr \<or> (buffer \<noteq> [] \<and> werr \<noteq> None)))
      \<and> serverLoop (relayStep st (ClientRead sender buffer rerr werr)) = serverLoop st
      \<and> returned (relayStep st (ClientRead sender buffer rerr werr)) = returned st
      \<and> serverConnOpen (relayStep st (ClientRead sender buffer rerr werr)) = serverConnOpen st)
   \<and> (serverLoop st \<longrightarrow>
      serverLoop (relayStep st (ServerRead buffer rerr werr))
        = (\<not> (terminal rerr \<or> (buffer \<noteq> [] \<and> werr \<noteq> None)))
      \<and> clientLoop (relayStep st (ServerRead buffer rerr werr)) = clientLoop st
      \<and> returned (relayStep st (ServerRead buffer rerr werr)) = returned st
      \<and> serverConnOpen (relayStep st (ServerRead buffer rerr werr)) = serverConnOpen st)
   \<and> (handleMediaConnection serverAddress True c network port kind = Some r \<longrightarrow>
        (returned (relayRun r events) \<longrightarrow>
           \<not> clientLoop (relayRun r events) \<and> \<not> serverLoop (relayRun r events)
           \<and> \<not> serverConnOpen (relayRun r events))
        \<and> (\<not> returned (relayRun r events) \<longrightarrow> serverConnOpen (relayRun r events))
        \<and> (\<not> clientLoop (relayRun r events) \<and> \<not> serverLoop (relayRun r events) \<longrightarrow>
             returned (relayRun r (events @ [WaitReturns]))))"
proof (intro conjI impI)
  assume "clientLoop st"
  then show "clientLoop (relayStep st (ClientRead sender buffer rerr werr))
        = (\<not> (terminal rerr \<or> (buffer \<noteq> [] \<and> werr \<noteq> None)))"
    and "serverLoop (relayStep st (ClientRead sender buffer rerr werr)) = serverLoop st"
    and "returned (relayStep st (ClientRead sender buffer rerr werr)) = returned st"
    and "serverConnOpen (relayStep st (ClientRead sender buffer rerr werr)) = serverConnOpen st"
    by (auto simp add: Let_def)
next
  assume "serverLoop st"
  then show "serverLoop (relayStep st (ServerRead buffer rerr werr))
        = (\<not> (terminal rerr \<or> (buffer \<noteq> [] \<and> werr \<noteq> None)))"
    and "clientLoop (relayStep st (ServerRead buffer rerr werr)) = clientLoop st"
    and "returned (relayStep st (ServerRead buffer rerr werr)) = returned st"
    and "serverConnOpen (relayStep st (ServerRead buffer rerr werr)) = serverConnOpen st"
    by (auto simp add: Let_def)
next
  assume "handleMediaConnection serverAddress True c network port kind = Some r"
  then have i: "relayInv (relayRun r events)"
    using relayInv_start relayRun_invariant by blast
  {
    assume "returned (relayRun r events)"
    with i show "\<not> clientLoop (relayRun r events)" and "\<not> serverLoop (relayRun r events)"
      and "\<not> serverConnOpen (relayRun r events)"
      by (auto simp add: relayInv_def split: if_splits)
  }
  {
    assume "\<not> returned (relayRun r events)"
    with i show "serverConnOpen (relayRun r events)"
      by (auto simp add: relayInv_def split: if_splits)
  }
  {
    assume "\<not> clientLoop (relayRun r events) \<and> \<not> serverLoop (relayRun r events)"
    with i have "wg (relayRun r events) = 0" by (simp add: relayInv_def)
    then show "returned (relayRun r (events @ [WaitReturns]))"
      by (simp add: relayRun_snoc)
  }
qed

theorem relay_ends_one_direction_and_joins_witness:
  "\<not> clientLoop (relayStep tcpRelay (ClientRead None ''x'' None (Some ErrOther)))
   \<and> serverLoop (relayStep tcpRelay (ClientRead None ''x'' None (Some ErrOther)))
   \<and> \<not> serverLoop (relayStep tcpRelay (ServerRead ''x'' None (Some ErrOther)))
   \<and> clientLoop (relayStep tcpRelay (ServerRead ''x'' None (Some ErrOther)))
   \<and> serverConnOpen (relayRun tcpRelay [ClientRead None ''x'' None (Some ErrOther),
                                         ServerRead [] (Some ErrOther) None])
   \<and> returned (relayRun tcpRelay [ClientRead None ''x'' None (Some ErrOther),
                                   ServerRead [] (Some ErrOther) None, WaitReturns])
   \<and> \<not> serverConnOpen (relayRun tcpRelay [ClientRead None ''x'' None (Some ErrOther),
                                           ServerRead [] (Some ErrOther) None, WaitReturns])"
proof -
  have start: "handleMediaConnection ''140.227.187.170'' True (Some ''10.0.0.2:50000'')
                 ''tcp'' ''40603'' ''VIDEO'' = Some tcpRelay"
    by (simp add: handleMediaConnection_def tcpRelay_def dialAddress_def)
  have loops: "clientLoop tcpRelay" "serverLoop tcpRelay"
    by (simp_all add: tcpRelay_def)
  have ended:
    "\<not> clientLoop (relayRun tcpRelay [ClientRead None ''x'' None (Some ErrOther),
                                       ServerRead [] (Some ErrOther) None])
     \<and> \<not> serverLoop (relayRun tcpRelay [ClientRead None ''x'' None (Some ErrOther),
                                         ServerRead [] (Some ErrOther) None])"
    by (simp add: tcpRelay_def relayRun_def terminal_def)
  have unreturned:
    "\<not> returned (relayRun tcpRelay [ClientRead None ''x'' None (Some ErrOther),
                                     ServerRead [] (Some ErrOther) None])"
    by (simp add: tcpRelay_def relayRun_def terminal_def)
  note step = relay_ends_one_direction_and_joins
    [where st = tcpRelay and rerr = None and sender = None and buffer = "''x''"
       and werr = "Some ErrOther" and serverAddress = "''140.227.187.170''"
       and c = "Some ''10.0.0.2:50000''" and network = "''tcp''" and port = "''40603''"
       and kind = "''VIDEO''" and r = tcpRelay
       and events = "[ClientRead None ''x'' None (Some ErrOther),
                      ServerRead [] (Some ErrOther) None]"]
  note last = relay_ends_one_direction_and_joins
    [where st = tcpRelay and rerr = None and sender = None and buffer = "''x''"
       and werr = "Some ErrOther" and serverAddress = "''140.227.187.170''"
       and c = "Some ''10.0.0.2:50000''" and network = "''tcp''" and port = "''40603''"
       and kind = "''VIDEO''" and r = tcpRelay
       and events = "[ClientRead None ''x'' None (Some ErrOther),
                      ServerRead [] (Some ErrOther) None, WaitReturns]"]
  from step start loops ended unreturned last show ?thesis
    by (simp add: terminal_def)
qed

text \<open>
  Claim C4, as stated, has a terminal error on either direction end both, and both
  endpoints released at completion. After a terminal error on the read from the client
  the other direction is still running and the relay cannot return; and once both
  directions have ended and the relay has returned, the client-side connection is still
  open: \<open>handleMediaConnection\<close> closes \<open>serverConn\<close> only.
\<close>

theorem relay_other_direction_and_client_endpoint_counterexample:
  "handleMediaConnection ''140.227.187.170'' True (Some ''10.0.0.2:50000'') ''tcp'' ''40603''
     ''VIDEO'' = Some tcpRelay
   \<and> serverLoop (relayRun tcpRelay [ClientRead None [] (Some ErrOther) None])
   \<and> \<not> returned (relayRun tcpRelay [ClientRead None [] (Some ErrOther) None, WaitReturns])
   \<and> returned (relayRun tcpRelay [ClientRead None [] (Some ErrOther) None,
                                   ServerRead [] (Some ErrOther) None, WaitReturns])
   \<and> connOpen (relayRun tcpRelay [ClientRead None [] (Some ErrOther) None,
                                   ServerRead [] (Some ErrOther) None, WaitReturns])"
  by (simp add: tcpRelay_def relayRun_def terminal_def handleMediaConnection_def
      dialAddress_def)

text \<open>
  Claim C5. A datagram side channel (transport \<open>ust\<close>) dials the configured
  destination host on the port of the descriptor, and replies from the destination are
  meant to go out on the bound socket to the address of the last sender seen there. The
  code dials as said, but a reply is written on the dialled socket \<open>serverConn\<close> to
  \<open>conn.RemoteAddr()\<close>, which the socket bound by \<open>net.ListenUDP\<close> does not have;
  the address a datagram came from is never kept.
\<close>

theorem datagram_reply_not_sent_to_last_sender:
  "startMediaConnection ''iDataChunk/unicast/ust/40604'' ''VIDEO''
     = Inr (Some \<lparr>chListener = ListenUDP 40604, chNetwork = ''udp'', chPort = ''40604'',
                  chKind = ''VIDEO''\<rparr>)
   \<and> startRelay ''140.227.187.170'' True None
        \<lparr>chListener = ListenUDP 40604, chNetwork = ''udp'', chPort = ''40604'',
         chKind = ''VIDEO''\<rparr>
     = Some \<lparr>relayNetwork = ''udp'', connRemoteAddr = None,
              serverRemoteAddr = Some ''140.227.187.170:40604'',
              clientLoop = True, serverLoop = True, wg = 2, returned = False,
              connOpen = True, serverConnOpen = True, sent = []\<rparr>
   \<and> sent (relayRun \<lparr>relayNetwork = ''udp'', connRemoteAddr = None,
              serverRemoteAddr = Some ''140.227.187.170:40604'',
              clientLoop = True, serverLoop = True, wg = 2, returned = False,
              connOpen = True, serverConnOpen = True, sent = []\<rparr>
        [ClientRead (Some ''10.0.0.2:50000'') ''ping'' None None,
         ServerRead ''pong'' None None])
     = [WriteTo Conn ''ping'' (Some ''140.227.187.170:40604''),
        WriteTo ServerConn ''pong'' None]"
  by (simp add: startMediaConnection_def startRelay_def handleMediaConnection_def
      dialAddress_def relayRun_def terminal_def Atoi_def isDigit_def readNat_def digitVal_def)


end
